theory Spec2Isabelle
  imports Main
begin

section \<open>Strings\<close>

text \<open>
  The source is \<^verbatim>\<open>codebase-genius/utils/repo_utils.py\<close>. A Python \<^verbatim>\<open>str\<close> is a
  sequence of code points; it is modelled as a \<^typ>\<open>string\<close> whose characters are
  the code points below 256, and the character classes of Python (\<^verbatim>\<open>str.isspace\<close>,
  the \<^verbatim>\<open>\w\<close> and \<^verbatim>\<open>\s\<close> of \<^verbatim>\<open>re\<close> on \<^verbatim>\<open>str\<close> patterns, \<^verbatim>\<open>str.lower\<close>)
  are written out for that range.
\<close>

definition code :: "char \<Rightarrow> nat" where
  "code c = of_char c"

definition NL :: char where
  "NL = CHR 0x0A"

definition py_isspace :: "char \<Rightarrow> bool" where
  "py_isspace c =
     (let n = code c
      in (9 \<le> n \<and> n \<le> 13) \<or> (28 \<le> n \<and> n \<le> 32) \<or> n = 133 \<or> n = 160)"

text \<open>\<^verbatim>\<open>str.isalnum\<close> below 256: digits, letters, and the Latin-1 letters and numerics.\<close>

definition py_isalnum :: "char \<Rightarrow> bool" where
  "py_isalnum c =
     (let n = code c
      in (48 \<le> n \<and> n \<le> 57) \<or> (65 \<le> n \<and> n \<le> 90) \<or> (97 \<le> n \<and> n \<le> 122) \<or>
         n = 170 \<or> n = 178 \<or> n = 179 \<or> n = 181 \<or> n = 185 \<or> n = 186 \<or>
         (188 \<le> n \<and> n \<le> 190) \<or> (192 \<le> n \<and> n \<le> 214) \<or>
         (216 \<le> n \<and> n \<le> 246) \<or> (248 \<le> n \<and> n \<le> 255))"

definition ascii_alnum :: "char \<Rightarrow> bool" where
  "ascii_alnum c =
     (let n = code c
      in (48 \<le> n \<and> n \<le> 57) \<or> (65 \<le> n \<and> n \<le> 90) \<or> (97 \<le> n \<and> n \<le> 122))"

definition py_lower_char :: "char \<Rightarrow> char" where
  "py_lower_char c =
     (let n = code c
      in if (65 \<le> n \<and> n \<le> 90) \<or> (192 \<le> n \<and> n \<le> 214) \<or> (216 \<le> n \<and> n \<le> 222)
         then char_of (n + 32) else c)"

definition py_lower :: "string \<Rightarrow> string" where
  "py_lower s = map py_lower_char s"

definition startswith :: "string \<Rightarrow> string \<Rightarrow> bool" where
  "startswith s p = (take (length p) s = p)"

text \<open>\<^verbatim>\<open>s.strip()\<close> removes the white space at both ends.\<close>

definition py_strip :: "string \<Rightarrow> string" where
  "py_strip s = rev (dropWhile py_isspace (rev (dropWhile py_isspace s)))"

text \<open>
  \<^verbatim>\<open>s.strip(chars)\<close> reads its argument as a set of characters and removes every
  leading and every trailing character of that set.
\<close>

definition strip_chars :: "string \<Rightarrow> string \<Rightarrow> string" where
  "strip_chars s chars =
     rev (dropWhile (\<lambda>c. c \<in> set chars) (rev (dropWhile (\<lambda>c. c \<in> set chars) s)))"

text \<open>
  \<^verbatim>\<open>s.split(sep)\<close> for a separator of one character: the pieces between the
  separators, one more piece than there are separators.
\<close>

fun py_split :: "string \<Rightarrow> char \<Rightarrow> string list" where
  "py_split [] sep = [[]]"
| "py_split (c # cs) sep =
     (if c = sep then [] # py_split cs sep
      else (case py_split cs sep of
              [] \<Rightarrow> [[c]]
            | p # ps \<Rightarrow> (c # p) # ps))"

section \<open>Regular expressions\<close>

text \<open>
  The three patterns of the source use literals, the classes \<^verbatim>\<open>\s\<close> and \<^verbatim>\<open>\w\<close>,
  the assertions \<^verbatim>\<open>^\<close> and \<^verbatim>\<open>\b\<close>, the greedy repeats \<^verbatim>\<open>*\<close> and \<^verbatim>\<open>+\<close> of one
  class, and one capturing group. A compiled pattern is the list of its
  instructions; the group is the pair of marks around its content.
\<close>

datatype cls = Lit char | Dot | Space | WordC

fun cls_match :: "cls \<Rightarrow> char \<Rightarrow> bool" where
  "cls_match (Lit c) x = (x = c)"
| "cls_match Dot x = (x \<noteq> NL)"
| "cls_match Space x = py_isspace x"
| "cls_match WordC x = (py_isalnum x \<or> x = CHR ''_'')"

datatype instr = One cls | Star cls | Plus cls | Bol | WordB | GrpOpen | GrpClose

text \<open>
  \<^verbatim>\<open>\b\<close> holds where exactly one of the character before and the character
  after the position is a word character; the ends of the string count as
  non-word.
\<close>

definition boundary :: "char option \<Rightarrow> string \<Rightarrow> bool" where
  "boundary prev rest =
     ((case prev of None \<Rightarrow> False | Some p \<Rightarrow> cls_match WordC p) \<noteq>
      (case rest of [] \<Rightarrow> False | x # _ \<Rightarrow> cls_match WordC x))"

text \<open>
  The backtracking matcher. \<open>prev\<close> is the character before the position,
  \<open>rest\<close> the text from the position on, \<open>pos\<close> the position, \<open>m\<close> the marks of
  group 1. A greedy repeat first takes one more character and falls back to
  the rest of the pattern when that fails. The result is the marks and the end
  of the match.
\<close>

fun run :: "instr list \<Rightarrow> char option \<Rightarrow> string \<Rightarrow> nat \<Rightarrow> nat \<times> nat \<Rightarrow> ((nat \<times> nat) \<times> nat) option" where
  "run [] prev rest pos m = Some (m, pos)"
| "run (One c # is) prev [] pos m = None"
| "run (One c # is) prev (x # xs) pos m =
     (if cls_match c x then run is (Some x) xs (Suc pos) m else None)"
| "run (Star c # is) prev [] pos m = run is prev [] pos m"
| "run (Star c # is) prev (x # xs) pos m =
     (if cls_match c x
      then (case run (Star c # is) (Some x) xs (Suc pos) m of
              Some r \<Rightarrow> Some r
            | None \<Rightarrow> run is prev (x # xs) pos m)
      else run is prev (x # xs) pos m)"
| "run (Plus c # is) prev [] pos m = None"
| "run (Plus c # is) prev (x # xs) pos m =
     (if cls_match c x then run (Star c # is) (Some x) xs (Suc pos) m else None)"
| "run (Bol # is) prev rest pos m = (if pos = 0 then run is prev rest pos m else None)"
| "run (WordB # is) prev rest pos m =
     (if boundary prev rest then run is prev rest pos m else None)"
| "run (GrpOpen # is) prev rest pos m = run is prev rest pos (pos, snd m)"
| "run (GrpClose # is) prev rest pos m = run is prev rest pos (fst m, pos)"

text \<open>\<^verbatim>\<open>re.match(p, s)\<close>: a match that starts at position 0, or \<open>None\<close>.\<close>

record match_obj =
  m_string :: string
  m_group1 :: "nat \<times> nat"
  m_end :: nat

definition re_match :: "instr list \<Rightarrow> string \<Rightarrow> match_obj option" where
  "re_match p s =
     (case run p None s 0 (0, 0) of
        None \<Rightarrow> None
      | Some (g, e) \<Rightarrow> Some \<lparr>m_string = s, m_group1 = g, m_end = e\<rparr>)"

text \<open>\<^verbatim>\<open>m.group(1)\<close>: the text between the marks.\<close>

definition group1 :: "match_obj \<Rightarrow> string" where
  "group1 m = (case m_group1 m of (b, e) \<Rightarrow> take (e - b) (drop b (m_string m)))"

text \<open>
  \<^verbatim>\<open>pattern.search(s)\<close>, read as a truth value: whether the pattern matches
  from some position of \<open>s\<close>, the end included.
\<close>

fun search_from :: "instr list \<Rightarrow> char option \<Rightarrow> string \<Rightarrow> nat \<Rightarrow> bool" where
  "search_from p prev [] pos = (run p prev [] pos (0, 0) \<noteq> None)"
| "search_from p prev (x # xs) pos =
     (if run p prev (x # xs) pos (0, 0) \<noteq> None then True
      else search_from p (Some x) xs (Suc pos))"

definition re_search :: "instr list \<Rightarrow> string \<Rightarrow> bool" where
  "re_search p s = search_from p None s 0"

text \<open>
  \<^verbatim>\<open>re.compile\<close> on the pattern syntax above. One step reads one instruction
  from the front of the pattern text. \<open>None\<close> stands for every text outside
  this fragment (a class in brackets, an alternative, a counted, optional or
  lazy repeat, a letter or digit escape other than \<^verbatim>\<open>\b\<close>, \<^verbatim>\<open>\s\<close>, \<^verbatim>\<open>\w\<close>, more
  than one group): Python raises \<^verbatim>\<open>re.error\<close> on some of them and gives the
  others a meaning that is not modelled. \<open>None\<close> is therefore no outcome of
  the code, only the edge of the model, and nothing is proved from it.
\<close>

definition BSL :: char where
  "BSL = CHR 0x5C"

definition repeat_chars :: string where
  "repeat_chars = ''*+?{''"

definition quantified :: "cls \<Rightarrow> string \<Rightarrow> (instr \<times> string) option" where
  "quantified c rest =
     (case rest of
        [] \<Rightarrow> Some (One c, [])
      | q # rest' \<Rightarrow>
          if q = CHR ''*'' \<or> q = CHR ''+''
          then (if rest' \<noteq> [] \<and> hd rest' \<in> set repeat_chars then None
                else Some (if q = CHR ''*'' then Star c else Plus c, rest'))
          else if q \<in> set repeat_chars then None
          else Some (One c, rest))"

definition asserted :: "instr \<Rightarrow> string \<Rightarrow> (instr \<times> string) option" where
  "asserted a rest =
     (if rest \<noteq> [] \<and> hd rest \<in> set repeat_chars then None else Some (a, rest))"

fun next_item :: "string \<Rightarrow> (instr \<times> string) option" where
  "next_item [] = None"
| "next_item (c # cs) =
     (if c = BSL
      then (case cs of
              [] \<Rightarrow> None
            | e # cs' \<Rightarrow>
                if e = CHR ''b'' then asserted WordB cs'
                else if e = CHR ''s'' then quantified Space cs'
                else if e = CHR ''w'' then quantified WordC cs'
                else if ascii_alnum e then None
                else quantified (Lit e) cs')
      else if c = CHR ''.'' then quantified Dot cs
      else if c = CHR ''^'' then asserted Bol cs
      else if c = CHR ''('' then (if cs \<noteq> [] \<and> hd cs = CHR ''?'' then None else Some (GrpOpen, cs))
      else if c = CHR '')'' then asserted GrpClose cs
      else if c \<in> set ''$*+?{}[]|'' then None
      else quantified (Lit c) cs)"

function parse_items :: "string \<Rightarrow> instr list option" where
  "parse_items s =
     (if s = [] then Some []
      else (case next_item s of
              None \<Rightarrow> None
            | Some (i, rest) \<Rightarrow>
                (case parse_items rest of None \<Rightarrow> None | Some is \<Rightarrow> Some (i # is))))"
  by pat_completeness auto
termination
proof (relation "measure length")
  show "wf (measure length)" by simp
next
  fix s :: string and x2 :: "instr \<times> string" and i rest
  assume "next_item s = Some x2" and "(i, rest) = x2"
  then have "next_item s = Some (i, rest)" by simp
  then have "length rest < length s"
    by (cases s) (auto simp: quantified_def asserted_def split: if_splits list.splits)
  then show "(rest, s) \<in> measure length" by simp
qed

text \<open>
  Group 1 is the only group the marks record: a pattern is accepted with no
  group or with one closed group, and neither nested nor unbalanced.
\<close>

fun groups_ok :: "nat \<Rightarrow> instr list \<Rightarrow> bool" where
  "groups_ok st [] = (st \<noteq> 1)"
| "groups_ok st (GrpOpen # is) = (st = 0 \<and> groups_ok 1 is)"
| "groups_ok st (GrpClose # is) = (st = 1 \<and> groups_ok 2 is)"
| "groups_ok st (i # is) = groups_ok st is"

definition re_compile :: "string \<Rightarrow> instr list option" where
  "re_compile s =
     (case parse_items s of
        None \<Rightarrow> None
      | Some is \<Rightarrow> if groups_ok 0 is then Some is else None)"

section \<open>find_function_calls\<close>

text \<open>
  \<^verbatim>\<open>
  calls = []
  lines = content.split('\n')
  pattern = re.compile(rf'\b{function_name}\s*\(')
  for i, line in enumerate(lines):
      if pattern.search(line):
          calls.append(i + 1)
  return calls
  \<close>
  The name goes into the pattern text as it is. The result is \<open>None\<close> where
  the pattern text leaves the modelled fragment; what the code returns or
  raises there is not stated.
\<close>

definition find_function_calls :: "string \<Rightarrow> string \<Rightarrow> nat list option" where
  "find_function_calls content function_name =
     (let lines = py_split content NL
      in (case re_compile ([BSL, CHR ''b''] @ function_name @ [BSL, CHR ''s'', CHR ''*'', BSL, CHR ''(''])
          of None \<Rightarrow> None
           | Some pattern \<Rightarrow>
               Some (concat (map (\<lambda>(i, line). if re_search pattern line then [i + 1] else [])
                                 (List.enumerate 0 lines)))))"

section \<open>simple_parse_python\<close>

record decl =
  name :: string
  line :: nat
  docstring :: string
  type :: string

record parsed =
  functions_list :: "decl list"
  classes_list :: "decl list"

text \<open>\<^verbatim>\<open>^def\s+(\w+)\s*\(\<close> and \<^verbatim>\<open>^class\s+(\w+)\<close>.\<close>

definition def_pattern :: "instr list" where
  "def_pattern =
     [Bol, One (Lit CHR ''d''), One (Lit CHR ''e''), One (Lit CHR ''f''), Plus Space,
      GrpOpen, Plus WordC, GrpClose, Star Space, One (Lit CHR ''('')]"

definition class_pattern :: "instr list" where
  "class_pattern =
     [Bol, One (Lit CHR ''c''), One (Lit CHR ''l''), One (Lit CHR ''a''), One (Lit CHR ''s''),
      One (Lit CHR ''s''), Plus Space, GrpOpen, Plus WordC, GrpClose]"

text \<open>
  The docstring block, the same after both patterns:
  \<^verbatim>\<open>
  docstring = ""
  if i + 1 < len(lines):
      next_line = lines[i + 1].strip()
      if next_line.startswith('"""') or next_line.startswith("'''"):
          docstring = next_line.strip('"""').strip("'''")
  \<close>
\<close>

definition DQ3 :: string where
  "DQ3 = [CHR 0x22, CHR 0x22, CHR 0x22]"

definition SQ3 :: string where
  "SQ3 = [CHR 0x27, CHR 0x27, CHR 0x27]"

definition get_docstring :: "string list \<Rightarrow> nat \<Rightarrow> string" where
  "get_docstring lines i =
     (if i + 1 < length lines
      then (let next_line = py_strip (lines ! (i + 1))
            in if startswith next_line DQ3 \<or> startswith next_line SQ3
               then strip_chars (strip_chars next_line DQ3) SQ3
               else [])
      else [])"

definition loop_body :: "string list \<Rightarrow> parsed \<Rightarrow> nat \<times> string \<Rightarrow> parsed" where
  "loop_body lines acc il =
     (case il of (i, ln) \<Rightarrow>
        (let acc1 =
               (case re_match def_pattern ln of
                  None \<Rightarrow> acc
                | Some func_match \<Rightarrow>
                    acc\<lparr>functions_list := functions_list acc @
                          [\<lparr>name = group1 func_match, line = i + 1,
                            docstring = get_docstring lines i, type = ''function''\<rparr>]\<rparr>)
         in (case re_match class_pattern ln of
               None \<Rightarrow> acc1
             | Some class_match \<Rightarrow>
                 acc1\<lparr>classes_list := classes_list acc1 @
                        [\<lparr>name = group1 class_match, line = i + 1,
                          docstring = get_docstring lines i, type = ''class''\<rparr>]\<rparr>)))"

definition simple_parse_python :: "string \<Rightarrow> parsed" where
  "simple_parse_python content =
     (let lines = py_split content NL
      in foldl (loop_body lines) \<lparr>functions_list = [], classes_list = []\<rparr> (List.enumerate 0 lines))"

section \<open>build_file_tree\<close>

text \<open>
  What the file system holds under \<^verbatim>\<open>root_path\<close>: a file, a directory with its
  entries in the order \<^verbatim>\<open>os.scandir\<close> lists them, or a directory that cannot
  be listed. The root is an \<^typ>\<open>'a option\<close>: \<open>None\<close> when the path does not
  exist. Symbolic links are not modelled.
\<close>

datatype fsnode = File | Dir "(string \<times> fsnode) list" | Unreadable

fun is_dir :: "fsnode \<Rightarrow> bool" where
  "is_dir File = False"
| "is_dir (Dir entries) = True"
| "is_dir Unreadable = True"

definition ignore_dirs :: "string list" where
  "ignore_dirs =
     [''.git'', ''node_modules'', ''__pycache__'', ''venv'', ''.venv'',
      ''env'', ''build'', ''dist'', ''.eggs'', ''*.egg-info'', ''.tox'',
      ''.pytest_cache'', ''.mypy_cache'', ''htmlcov'', ''.coverage'']"

definition code_extensions :: "(string \<times> string) list" where
  "code_extensions =
     [(''.py'', ''python''),
      (''.jac'', ''jac''),
      (''.js'', ''javascript''),
      (''.ts'', ''typescript''),
      (''.java'', ''java''),
      (''.cpp'', ''cpp''),
      (''.c'', ''c''),
      (''.h'', ''c''),
      (''.go'', ''go''),
      (''.rs'', ''rust''),
      (''.rb'', ''ruby''),
      (''.php'', ''php'')]"

text \<open>\<^verbatim>\<open>p.rfind(c)\<close>: the last index of \<open>c\<close> in \<open>p\<close>, or \<open>-1\<close>.\<close>

definition rfind :: "string \<Rightarrow> char \<Rightarrow> int" where
  "rfind p c = foldl (\<lambda>r (i, x). if x = c then int i else r) (- 1) (List.enumerate 0 p)"

text \<open>
  \<^verbatim>\<open>os.path.splitext\<close> (POSIX): the extension starts at the last dot after the
  last separator, unless only dots come before it in the file name.
  \<^verbatim>\<open>
  sepIndex = p.rfind(sep)
  dotIndex = p.rfind(extsep)
  if dotIndex > sepIndex:
      filenameIndex = sepIndex + 1
      while filenameIndex < dotIndex:
          if p[filenameIndex:filenameIndex+1] != extsep:
              return p[:dotIndex], p[dotIndex:]
          filenameIndex += 1
  return p, p[:0]
  \<close>
\<close>

definition splitext :: "string \<Rightarrow> string \<times> string" where
  "splitext p =
     (let sepIndex = rfind p CHR ''/'';
          dotIndex = rfind p CHR ''.''
      in if dotIndex > sepIndex \<and>
            list_ex (\<lambda>filenameIndex. p ! nat filenameIndex \<noteq> CHR ''.'') [sepIndex + 1 .. dotIndex - 1]
         then (take (nat dotIndex) p, drop (nat dotIndex) p)
         else (p, []))"

text \<open>
  \<^verbatim>\<open>os.path.relpath(os.path.join(root, file), root_path)\<close>: \<open>root\<close> is kept as
  the list of directory names from \<^verbatim>\<open>root_path\<close> down, and the relative path
  joins them and the file name with the separator.
\<close>

fun join_sep :: "string list \<Rightarrow> string" where
  "join_sep [] = []"
| "join_sep [x] = x"
| "join_sep (x # y # ys) = x @ ''/'' @ join_sep (y # ys)"

definition relpath :: "string list \<Rightarrow> string \<Rightarrow> string" where
  "relpath root file = join_sep (root @ [file])"

type_synonym file_tree = "string \<rightharpoonup> string"

text \<open>
  The body of the inner loop, for one file:
  \<^verbatim>\<open>
  if file.startswith('.'):
      continue
  file_path = os.path.join(root, file)
  relative_path = os.path.relpath(file_path, root_path)
  _, ext = os.path.splitext(file)
  if ext in code_extensions:
      file_tree[relative_path] = code_extensions[ext]
  elif file.lower() in ['readme.md', 'readme.txt', 'readme']:
      file_tree[relative_path] = 'readme'
  elif ext == '.md':
      file_tree[relative_path] = 'markdown'
  \<close>
\<close>

definition classify_file :: "string list \<Rightarrow> file_tree \<Rightarrow> string \<Rightarrow> file_tree" where
  "classify_file root file_tree file =
     (if startswith file ''.'' then file_tree
      else (let relative_path = relpath root file;
                ext = snd (splitext file)
            in (case map_of code_extensions ext of
                  Some language \<Rightarrow> file_tree(relative_path \<mapsto> language)
                | None \<Rightarrow>
                    if py_lower file \<in> set [''readme.md'', ''readme.txt'', ''readme'']
                    then file_tree(relative_path \<mapsto> ''readme'')
                    else if ext = ''.md'' then file_tree(relative_path \<mapsto> ''markdown'')
                    else file_tree)))"

text \<open>
  \<^verbatim>\<open>
  for root, dirs, files in os.walk(root_path):
      dirs[:] = [d for d in dirs if d not in ignore_dirs and not d.startswith('.')]
      for file in files:
          ...
  \<close>
  \<^verbatim>\<open>os.walk\<close> (top down, \<^verbatim>\<open>onerror=None\<close>) lists a directory, hands its
  directory names and its other names to the loop body, and then walks into
  the directories the body has left in \<^verbatim>\<open>dirs\<close>, in their order. When the
  listing fails (the path is missing, is no directory, or may not be read) the
  error is dropped and nothing is yielded for that path. \<open>walk\<close> is the
  traversal of one directory with the loop body applied; \<open>descend\<close> goes
  through its entries and enters each directory the filter keeps.
\<close>

fun walk :: "string list \<Rightarrow> fsnode \<Rightarrow> file_tree \<Rightarrow> file_tree"
  and descend :: "string list \<Rightarrow> (string \<times> fsnode) list \<Rightarrow> file_tree \<Rightarrow> file_tree" where
  "walk root File file_tree = file_tree"
| "walk root Unreadable file_tree = file_tree"
| "walk root (Dir entries) file_tree =
     descend root entries
       (foldl (classify_file root) file_tree (map fst (filter (\<lambda>(n, e). \<not> is_dir e) entries)))"
| "descend root [] file_tree = file_tree"
| "descend root ((d, e) # entries) file_tree =
     (if is_dir e \<and> d \<notin> set ignore_dirs \<and> \<not> startswith d ''.''
      then descend root entries (walk (root @ [d]) e file_tree)
      else descend root entries file_tree)"

text \<open>
  The mapping the function returns, given what \<^verbatim>\<open>root_path\<close> names in the file
  system (\<open>None\<close>: nothing).
\<close>

definition build_file_tree :: "fsnode option \<Rightarrow> file_tree" where
  "build_file_tree root_path =
     (case root_path of
        None \<Rightarrow> Map.empty
      | Some node \<Rightarrow> walk [] node Map.empty)"

text \<open>
  \<open>build_file_tree\<close> above gives the mapping as a function of what
  \<^verbatim>\<open>root_path\<close> names. The call itself takes the path as a string. A file
  system is the map from a path to what it names. \<^verbatim>\<open>os.scandir\<close> raises
  \<^verbatim>\<open>ValueError\<close> for a path with a NUL character, and an \<^verbatim>\<open>OSError\<close> when the
  path names nothing, names a file, or names a directory that may not be
  listed. (A lone surrogate in the path, which raises \<^verbatim>\<open>UnicodeEncodeError\<close>, is
  outside the strings modelled here.) The names \<^verbatim>\<open>os.walk\<close> joins to the root
  below come from the listings, so only the root path can hold a NUL.
\<close>

datatype py_error = FileNotFoundError | NotADirectoryError | PermissionError | ValueError

fun is_OSError :: "py_error \<Rightarrow> bool" where
  "is_OSError FileNotFoundError = True"
| "is_OSError NotADirectoryError = True"
| "is_OSError PermissionError = True"
| "is_OSError ValueError = False"

type_synonym filesystem = "string \<rightharpoonup> fsnode"

definition scandir :: "filesystem \<Rightarrow> string \<Rightarrow> py_error + (string \<times> fsnode) list" where
  "scandir fs path =
     (if CHR 0x00 \<in> set path then Inl ValueError
      else (case fs path of
              None \<Rightarrow> Inl FileNotFoundError
            | Some File \<Rightarrow> Inl NotADirectoryError
            | Some Unreadable \<Rightarrow> Inl PermissionError
            | Some (Dir entries) \<Rightarrow> Inr entries))"

text \<open>
  The call on a path: \<^verbatim>\<open>os.walk\<close> lists the root inside
  \<^verbatim>\<open>try: ... except OSError\<close> and, with \<^verbatim>\<open>onerror=None\<close>, returns without a
  word when the listing fails with an \<^verbatim>\<open>OSError\<close>, so the loop of
  \<^verbatim>\<open>build_file_tree\<close> runs zero times and the function returns its empty
  dictionary. Any other exception of the listing leaves the function.
\<close>

definition build_file_tree_call :: "filesystem \<Rightarrow> string \<Rightarrow> py_error + file_tree" where
  "build_file_tree_call fs root_path =
     (case scandir fs root_path of
        Inl error \<Rightarrow> if is_OSError error then Inr Map.empty else Inl error
      | Inr entries \<Rightarrow> Inr (walk [] (Dir entries) Map.empty))"

section \<open>Auxiliary definitions for the proofs\<close>

text \<open>The records one line adds to each of the two lists.\<close>

definition func_records :: "string list \<Rightarrow> nat \<times> string \<Rightarrow> decl list" where
  "func_records lines il =
     (case re_match def_pattern (snd il) of
        None \<Rightarrow> []
      | Some m \<Rightarrow> [\<lparr>name = group1 m, line = fst il + 1,
                     docstring = get_docstring lines (fst il), type = ''function''\<rparr>])"

definition class_records :: "string list \<Rightarrow> nat \<times> string \<Rightarrow> decl list" where
  "class_records lines il =
     (case re_match class_pattern (snd il) of
        None \<Rightarrow> []
      | Some m \<Rightarrow> [\<lparr>name = group1 m, line = fst il + 1,
                     docstring = get_docstring lines (fst il), type = ''class''\<rparr>])"

text \<open>Example texts.\<close>

definition docstring_example :: string where
  "docstring_example =
     ''def foo(x):'' @ [NL] @ ''    '' @ DQ3 @ ''does a thing'' @ DQ3 @ [NL] @ ''    return x''"

definition indented_example :: string where
  "indented_example = '' def f():'' @ [NL] @ ''def g(x):'' @ [NL] @ ''  class C:''"

definition bare_marker_example :: string where
  "bare_marker_example =
     ''def f():'' @ [NL] @ ''    '' @ DQ3 @ [NL] @ ''    Explains f.'' @ [NL] @ ''    '' @ DQ3"

definition no_docstring_example :: string where
  "no_docstring_example = ''def f():'' @ [NL] @ ''    return 1''"

text \<open>
  The label the chain of tests in the loop body gives a file name, or \<open>None\<close>
  when the file is left out.
\<close>

definition category :: "string \<Rightarrow> string option" where
  "category file =
     (let ext = snd (splitext file)
      in (case map_of code_extensions ext of
            Some language \<Rightarrow> Some language
          | None \<Rightarrow>
              if py_lower file \<in> set [''readme.md'', ''readme.txt'', ''readme'']
              then Some ''readme''
              else if ext = ''.md'' then Some ''markdown''
              else None))"

text \<open>A tree as a file system can hold it: no entry name contains the separator.\<close>

fun names_ok :: "fsnode \<Rightarrow> bool" where
  "names_ok (Dir entries) = list_all (\<lambda>(n, e). CHR ''/'' \<notin> set n \<and> names_ok e) entries"
| "names_ok File = True"
| "names_ok Unreadable = True"

text \<open>
  \<open>has_file t ds f\<close>: below \<open>t\<close>, the directories \<open>ds\<close> lead to a directory
  that lists \<open>f\<close> as an entry that is no directory.
\<close>

fun has_file :: "fsnode \<Rightarrow> string list \<Rightarrow> string \<Rightarrow> bool" where
  "has_file (Dir entries) [] f = list_ex (\<lambda>(n, e). n = f \<and> \<not> is_dir e) entries"
| "has_file (Dir entries) (d # ds) f = list_ex (\<lambda>(n, e). n = d \<and> has_file e ds f) entries"
| "has_file File ds f = False"
| "has_file Unreadable ds f = False"

definition last_comp :: "string \<Rightarrow> string" where
  "last_comp k = last (py_split k CHR ''/'')"

text \<open>The filter of the loop body on a directory name.\<close>

definition kept :: "string \<Rightarrow> bool" where
  "kept d = (d \<notin> set ignore_dirs \<and> \<not> startswith d ''.'')"

text \<open>Example trees.\<close>

definition sample_tree :: fsnode where
  "sample_tree =
     Dir [(''README.md'', File), (''main.py'', File),
          (''node_modules'', Dir [(''a.js'', File)]),
          (''.git'', Dir [(''hook.py'', File)]),
          (''src'', Dir [(''x.c'', File), (''.hid.py'', File), (''data.bin'', File),
                        (''sub'', Dir [(''R.go'', File), (''ReadMe'', File)])]),
          (''locked'', Unreadable)]"

definition flat_example :: fsnode where
  "flat_example =
     Dir [(''README.md'', File), (''notes.md'', File), (''main.py'', File), (''lib.rs'', File)]"

text \<open>Example file systems: nothing at any path, an empty directory, a locked directory.\<close>

definition missing_fs :: filesystem where
  "missing_fs = Map.empty"

definition empty_dir_fs :: filesystem where
  "empty_dir_fs = [''repo'' \<mapsto> Dir []]"

definition locked_fs :: filesystem where
  "locked_fs = [''repo'' \<mapsto> Unreadable]"

section \<open>Properties of simple_parse_python\<close>

lemma functions_foldl:
  "functions_list (foldl (loop_body ls) acc xs) =
     functions_list acc @ concat (map (func_records ls) xs)"
  by (induction xs arbitrary: acc)
    (auto simp: loop_body_def func_records_def Let_def split: option.splits prod.splits)

lemma classes_foldl:
  "classes_list (foldl (loop_body ls) acc xs) =
     classes_list acc @ concat (map (class_records ls) xs)"
  by (induction xs arbitrary: acc)
    (auto simp: loop_body_def class_records_def Let_def split: option.splits prod.splits)

lemma in_func_records:
  "r \<in> set (func_records ls (i, ln)) \<longleftrightarrow>
     (\<exists>m. re_match def_pattern ln = Some m \<and>
          r = \<lparr>name = group1 m, line = i + 1, docstring = get_docstring ls i, type = ''function''\<rparr>)"
  by (cases "re_match def_pattern ln") (auto simp: func_records_def)

lemma in_class_records:
  "r \<in> set (class_records ls (i, ln)) \<longleftrightarrow>
     (\<exists>m. re_match class_pattern ln = Some m \<and>
          r = \<lparr>name = group1 m, line = i + 1, docstring = get_docstring ls i, type = ''class''\<rparr>)"
  by (cases "re_match class_pattern ln") (auto simp: class_records_def)

lemma set_concat_enumerate:
  "set (concat (map f (List.enumerate 0 ls))) = (\<Union>i\<in>{..<length ls}. set (f (i, ls ! i)))"
proof -
  have "set (List.enumerate 0 ls) = (\<lambda>i. (i, ls ! i)) ` {..<length ls}"
    by (auto simp: in_set_enumerate_eq image_iff)
  then show ?thesis by simp
qed

lemma in_functions_iff:
  "r \<in> set (functions_list (simple_parse_python content)) \<longleftrightarrow>
     (\<exists>i m. i < length (py_split content NL) \<and>
            re_match def_pattern (py_split content NL ! i) = Some m \<and>
            r = \<lparr>name = group1 m, line = i + 1,
                 docstring = get_docstring (py_split content NL) i, type = ''function''\<rparr>)"
proof -
  have "set (functions_list (simple_parse_python content)) =
          (\<Union>i\<in>{..<length (py_split content NL)}.
             set (func_records (py_split content NL) (i, py_split content NL ! i)))"
    by (simp only: simple_parse_python_def Let_def functions_foldl set_concat_enumerate
        parsed.simps append_Nil)
  then show ?thesis
    by (simp add: in_func_records Bex_def)
qed

lemma in_classes_iff:
  "r \<in> set (classes_list (simple_parse_python content)) \<longleftrightarrow>
     (\<exists>i m. i < length (py_split content NL) \<and>
            re_match class_pattern (py_split content NL ! i) = Some m \<and>
            r = \<lparr>name = group1 m, line = i + 1,
                 docstring = get_docstring (py_split content NL) i, type = ''class''\<rparr>)"
proof -
  have "set (classes_list (simple_parse_python content)) =
          (\<Union>i\<in>{..<length (py_split content NL)}.
             set (class_records (py_split content NL) (i, py_split content NL ! i)))"
    by (simp only: simple_parse_python_def Let_def classes_foldl set_concat_enumerate
        parsed.simps append_Nil)
  then show ?thesis
    by (simp add: in_class_records Bex_def)
qed

lemma run_lit_prefix:
  "run (One (Lit c) # is) prev s pos m = Some r \<Longrightarrow> \<exists>xs. s = c # xs \<and> run is (Some c) xs (Suc pos) m = Some r"
  by (cases s) (auto split: if_splits)

lemma re_match_def_prefix: "re_match def_pattern s = Some m \<Longrightarrow> startswith s ''def''"
  unfolding re_match_def def_pattern_def startswith_def
  by (auto split: option.splits dest!: run_lit_prefix)

lemma re_match_class_prefix: "re_match class_pattern s = Some m \<Longrightarrow> startswith s ''class''"
  unfolding re_match_def class_pattern_def startswith_def
  by (auto split: option.splits dest!: run_lit_prefix)

text \<open>The two instruction lists are what the pattern texts of the source compile to.\<close>

lemma def_pattern_compiled:
  "re_compile (''^def'' @ [BSL] @ ''s+('' @ [BSL] @ ''w+)'' @ [BSL] @ ''s*'' @ [BSL] @ ''('') =
     Some def_pattern"
  by code_simp

lemma class_pattern_compiled:
  "re_compile (''^class'' @ [BSL] @ ''s+('' @ [BSL] @ ''w+)'') = Some class_pattern"
  by code_simp

lemma strip_chars_DQ3: "strip_chars s DQ3 = strip_chars s [CHR 0x22]"
  by (simp add: strip_chars_def DQ3_def)

lemma strip_chars_SQ3: "strip_chars s SQ3 = strip_chars s [CHR 0x27]"
  by (simp add: strip_chars_def SQ3_def)

lemma get_docstring_marker:
  assumes "i + 1 < length ls"
    and "startswith (py_strip (ls ! (i + 1))) DQ3 \<or> startswith (py_strip (ls ! (i + 1))) SQ3"
  shows "get_docstring ls i =
           strip_chars (strip_chars (py_strip (ls ! (i + 1))) [CHR 0x22]) [CHR 0x27]"
  using assms by (auto simp: get_docstring_def Let_def strip_chars_DQ3 strip_chars_SQ3)

lemma get_docstring_bare:
  assumes "i + 1 < length ls"
    and "py_strip (ls ! (i + 1)) = DQ3 \<or> py_strip (ls ! (i + 1)) = SQ3"
  shows "get_docstring ls i = []"
  using assms by (auto simp: get_docstring_def Let_def strip_chars_def DQ3_def SQ3_def startswith_def)

lemma get_docstring_none:
  assumes "length ls \<le> i + 1 \<or>
           (\<not> startswith (py_strip (ls ! (i + 1))) DQ3 \<and> \<not> startswith (py_strip (ls ! (i + 1))) SQ3)"
  shows "get_docstring ls i = []"
  using assms by (auto simp: get_docstring_def Let_def)

lemma record_at_line:
  assumes "r \<in> set (functions_list (simple_parse_python content)) \<union>
               set (classes_list (simple_parse_python content))"
    and "line r = i + 1"
  shows "docstring r = get_docstring (py_split content NL) i"
  using assms by (auto simp: in_functions_iff in_classes_iff)

text \<open>
  Claim C5. On the text \<^verbatim>\<open>def foo(x):\<close>, then an indented line holding
  \<^verbatim>\<open>does a thing\<close> between two triple double-quote markers, then \<^verbatim>\<open>return x\<close>,
  \<open>simple_parse_python\<close> yields exactly one function record, with name \<open>foo\<close>,
  line 1 and docstring \<open>does a thing\<close>, and no class record.
\<close>

theorem extract_declarations_example:
  "simple_parse_python docstring_example =
     \<lparr>functions_list =
        [\<lparr>name = ''foo'', line = 1, docstring = ''does a thing'', type = ''function''\<rparr>],
      classes_list = []\<rparr>"
  by code_simp

text \<open>
  Claim C3, as amended. When line \<open>i + 1\<close> exists and its trimmed content \<open>t\<close>
  begins with a triple-quote marker, a declaration matched at line \<open>i\<close> is
  recorded with the docstring \<open>t\<close> from which every leading and trailing
  double quote, and then every leading and trailing single quote, has been
  removed: the marker is stripped at both ends, so a closing marker on the
  same line is removed too.
\<close>

theorem docstring_first_line_stripped_at_both_ends:
  assumes "i + 1 < length (py_split content NL)"
    and "t = py_strip (py_split content NL ! (i + 1))"
    and "startswith t DQ3 \<or> startswith t SQ3"
  shows "(\<forall>m. re_match def_pattern (py_split content NL ! i) = Some m \<longrightarrow>
            \<lparr>name = group1 m, line = i + 1,
             docstring = strip_chars (strip_chars t [CHR 0x22]) [CHR 0x27],
             type = ''function''\<rparr> \<in> set (functions_list (simple_parse_python content))) \<and>
         (\<forall>m. re_match class_pattern (py_split content NL ! i) = Some m \<longrightarrow>
            \<lparr>name = group1 m, line = i + 1,
             docstring = strip_chars (strip_chars t [CHR 0x22]) [CHR 0x27],
             type = ''class''\<rparr> \<in> set (classes_list (simple_parse_python content))) \<and>
         (\<forall>r \<in> set (functions_list (simple_parse_python content)) \<union>
                set (classes_list (simple_parse_python content)).
            line r = i + 1 \<longrightarrow>
            docstring r = strip_chars (strip_chars t [CHR 0x22]) [CHR 0x27])"
proof -
  have d: "get_docstring (py_split content NL) i =
             strip_chars (strip_chars t [CHR 0x22]) [CHR 0x27]"
    using assms get_docstring_marker by simp
  have "\<And>r. r \<in> set (functions_list (simple_parse_python content)) \<union>
                set (classes_list (simple_parse_python content)) \<Longrightarrow>
            line r = i + 1 \<Longrightarrow>
            docstring r = strip_chars (strip_chars t [CHR 0x22]) [CHR 0x27]"
    using record_at_line d by simp
  moreover have "\<And>m. re_match def_pattern (py_split content NL ! i) = Some m \<Longrightarrow>
            \<lparr>name = group1 m, line = i + 1,
             docstring = strip_chars (strip_chars t [CHR 0x22]) [CHR 0x27],
             type = ''function''\<rparr> \<in> set (functions_list (simple_parse_python content))"
    using assms(1) d by (auto simp: in_functions_iff intro!: exI [of _ i])
  moreover have "\<And>m. re_match class_pattern (py_split content NL ! i) = Some m \<Longrightarrow>
            \<lparr>name = group1 m, line = i + 1,
             docstring = strip_chars (strip_chars t [CHR 0x22]) [CHR 0x27],
             type = ''class''\<rparr> \<in> set (classes_list (simple_parse_python content))"
    using assms(1) d by (auto simp: in_classes_iff intro!: exI [of _ i])
  ultimately show ?thesis by blast
qed

theorem docstring_first_line_stripped_at_both_ends_witness:
  "0 + 1 < length (py_split docstring_example NL) \<and>
   startswith (py_strip (py_split docstring_example NL ! (0 + 1))) DQ3 \<and>
   \<lparr>name = ''foo'', line = 0 + 1, docstring = ''does a thing'', type = ''function''\<rparr>
     \<in> set (functions_list (simple_parse_python docstring_example))"
proof -
  have l: "py_split docstring_example NL =
             [''def foo(x):'', ''    '' @ DQ3 @ ''does a thing'' @ DQ3, ''    return x'']"
    by code_simp
  have t: "py_strip (py_split docstring_example NL ! (0 + 1)) = DQ3 @ ''does a thing'' @ DQ3"
    unfolding l by code_simp
  have s: "strip_chars (strip_chars (DQ3 @ ''does a thing'' @ DQ3) [CHR 0x22]) [CHR 0x27] =
             ''does a thing''"
    by code_simp
  have h1: "0 + 1 < length (py_split docstring_example NL)"
    unfolding l by simp
  have h3: "startswith (py_strip (py_split docstring_example NL ! (0 + 1))) DQ3"
    unfolding t by (simp add: startswith_def DQ3_def)
  have m: "re_match def_pattern (py_split docstring_example NL ! 0) =
             Some \<lparr>m_string = ''def foo(x):'', m_group1 = (4, 7), m_end = 8\<rparr>"
    unfolding l by code_simp
  have g: "group1 \<lparr>m_string = ''def foo(x):'', m_group1 = (4, 7), m_end = 8\<rparr> = ''foo''"
    by code_simp
  show ?thesis
    using docstring_first_line_stripped_at_both_ends [OF h1 refl disjI1 [OF h3]] h1 h3 m g
    unfolding t s by simp
qed

text \<open>
  Claim C3 as stated fails on the text of claim C5: the declaration at the
  first line is matched, the trimmed second line begins with the marker, the
  recorded docstring is \<open>does a thing\<close>, and the trimmed line without its
  leading marker still ends with the closing marker.
\<close>

theorem docstring_closing_marker_counterexample:
  "re_match def_pattern (py_split docstring_example NL ! 0) \<noteq> None \<and>
   0 + 1 < length (py_split docstring_example NL) \<and>
   startswith (py_strip (py_split docstring_example NL ! (0 + 1))) DQ3 \<and>
   map docstring (functions_list (simple_parse_python docstring_example)) = [''does a thing''] \<and>
   drop (length DQ3) (py_strip (py_split docstring_example NL ! (0 + 1))) =
     ''does a thing'' @ DQ3 \<and>
   ''does a thing'' \<noteq> drop (length DQ3) (py_strip (py_split docstring_example NL ! (0 + 1)))"
  by code_simp

text \<open>
  Claim C8. A function record comes only from a line that begins with
  \<^verbatim>\<open>def\<close> at column 0 and a class record only from a line that begins with
  \<^verbatim>\<open>class\<close> at column 0; a line that begins with a white-space character
  gives no record in either list.
\<close>

theorem declarations_only_at_column_0:
  "(r \<in> set (functions_list (simple_parse_python content)) \<longrightarrow>
      0 < line r \<and> line r \<le> length (py_split content NL) \<and>
      startswith (py_split content NL ! (line r - 1)) ''def'') \<and>
   (r \<in> set (classes_list (simple_parse_python content)) \<longrightarrow>
      0 < line r \<and> line r \<le> length (py_split content NL) \<and>
      startswith (py_split content NL ! (line r - 1)) ''class'') \<and>
   (i < length (py_split content NL) \<and> py_split content NL ! i = w # rest \<and> py_isspace w \<longrightarrow>
      (\<forall>r' \<in> set (functions_list (simple_parse_python content)) \<union>
              set (classes_list (simple_parse_python content)). line r' \<noteq> i + 1))"
proof -
  have a: "\<And>r. r \<in> set (functions_list (simple_parse_python content)) \<Longrightarrow>
      0 < line r \<and> line r \<le> length (py_split content NL) \<and>
      startswith (py_split content NL ! (line r - 1)) ''def''"
    by (auto simp: in_functions_iff dest: re_match_def_prefix)
  have b: "\<And>r. r \<in> set (classes_list (simple_parse_python content)) \<Longrightarrow>
      0 < line r \<and> line r \<le> length (py_split content NL) \<and>
      startswith (py_split content NL ! (line r - 1)) ''class''"
    by (auto simp: in_classes_iff dest: re_match_class_prefix)
  have c: "\<not> py_isspace CHR ''d''" "\<not> py_isspace CHR ''c''"
    by (simp_all add: py_isspace_def code_def)
  have "line r' \<noteq> i + 1"
    if "py_split content NL ! i = w # rest" "py_isspace w"
      "r' \<in> set (functions_list (simple_parse_python content)) \<union>
             set (classes_list (simple_parse_python content))" for r'
  proof
    assume "line r' = i + 1"
    with a [of r'] b [of r'] that(1,3) have "w = CHR ''d'' \<or> w = CHR ''c''"
      by (auto simp: startswith_def)
    with that(2) c show False by auto
  qed
  with a b show ?thesis by blast
qed

theorem declarations_only_at_column_0_witness:
  "\<lparr>name = ''g'', line = 2, docstring = [], type = ''function''\<rparr>
     \<in> set (functions_list (simple_parse_python indented_example)) \<and>
   startswith (py_split indented_example NL ! (2 - 1)) ''def'' \<and>
   py_split indented_example NL ! 0 = CHR '' '' # ''def f():'' \<and>
   py_isspace CHR '' '' \<and>
   0 + 1 \<notin> line ` (set (functions_list (simple_parse_python indented_example)) \<union>
                   set (classes_list (simple_parse_python indented_example)))"
proof -
  have p: "simple_parse_python indented_example =
             \<lparr>functions_list = [\<lparr>name = ''g'', line = 2, docstring = [], type = ''function''\<rparr>],
              classes_list = []\<rparr>"
    by code_simp
  have l: "py_split indented_example NL = ['' def f():'', ''def g(x):'', ''  class C:'']"
    by code_simp
  have w: "py_isspace CHR '' ''"
    by code_simp
  have m: "\<lparr>name = ''g'', line = 2, docstring = [], type = ''function''\<rparr>
             \<in> set (functions_list (simple_parse_python indented_example))"
    unfolding p by simp
  have i: "0 < length (py_split indented_example NL) \<and>
           py_split indented_example NL ! 0 = CHR '' '' # ''def f():'' \<and> py_isspace CHR '' ''"
    using w unfolding l by simp
  show ?thesis
    using declarations_only_at_column_0
      [of "\<lparr>name = ''g'', line = 2, docstring = [], type = ''function''\<rparr>"
          indented_example 0 "CHR '' ''" "''def f():''"] m i
    by auto
qed

text \<open>
  Claim C9. When the line after a matched declaration is, once trimmed, a bare
  triple-quote marker (of either quote style), the recorded docstring is the
  empty string, the same docstring a declaration has whose next line is
  missing or opens no docstring.
\<close>

theorem bare_marker_docstring_is_empty:
  assumes "i + 1 < length (py_split content NL)"
    and "py_strip (py_split content NL ! (i + 1)) = DQ3 \<or>
         py_strip (py_split content NL ! (i + 1)) = SQ3"
    and "length (py_split content' NL) \<le> j + 1 \<or>
         (\<not> startswith (py_strip (py_split content' NL ! (j + 1))) DQ3 \<and>
          \<not> startswith (py_strip (py_split content' NL ! (j + 1))) SQ3)"
  shows "(\<forall>m. re_match def_pattern (py_split content NL ! i) = Some m \<longrightarrow>
            \<lparr>name = group1 m, line = i + 1, docstring = [], type = ''function''\<rparr>
              \<in> set (functions_list (simple_parse_python content))) \<and>
         (\<forall>m. re_match class_pattern (py_split content NL ! i) = Some m \<longrightarrow>
            \<lparr>name = group1 m, line = i + 1, docstring = [], type = ''class''\<rparr>
              \<in> set (classes_list (simple_parse_python content))) \<and>
         (\<forall>r \<in> set (functions_list (simple_parse_python content)) \<union>
                set (classes_list (simple_parse_python content)).
            line r = i + 1 \<longrightarrow> docstring r = []) \<and>
         (\<forall>r \<in> set (functions_list (simple_parse_python content')) \<union>
                set (classes_list (simple_parse_python content')).
            line r = j + 1 \<longrightarrow> docstring r = [])"
proof -
  have d: "get_docstring (py_split content NL) i = []"
    using assms(1,2) by (rule get_docstring_bare)
  have d': "get_docstring (py_split content' NL) j = []"
    using assms(3) by (rule get_docstring_none)
  have "\<And>r. r \<in> set (functions_list (simple_parse_python content)) \<union>
                set (classes_list (simple_parse_python content)) \<Longrightarrow>
            line r = i + 1 \<Longrightarrow> docstring r = []"
    using record_at_line d by simp
  moreover have "\<And>r. r \<in> set (functions_list (simple_parse_python content')) \<union>
                set (classes_list (simple_parse_python content')) \<Longrightarrow>
            line r = j + 1 \<Longrightarrow> docstring r = []"
    using record_at_line d' by simp
  moreover have "\<And>m. re_match def_pattern (py_split content NL ! i) = Some m \<Longrightarrow>
            \<lparr>name = group1 m, line = i + 1, docstring = [], type = ''function''\<rparr>
              \<in> set (functions_list (simple_parse_python content))"
    using assms(1) d by (auto simp: in_functions_iff intro!: exI [of _ i])
  moreover have "\<And>m. re_match class_pattern (py_split content NL ! i) = Some m \<Longrightarrow>
            \<lparr>name = group1 m, line = i + 1, docstring = [], type = ''class''\<rparr>
              \<in> set (classes_list (simple_parse_python content))"
    using assms(1) d by (auto simp: in_classes_iff intro!: exI [of _ i])
  ultimately show ?thesis by blast
qed

theorem bare_marker_docstring_is_empty_witness:
  "0 + 1 < length (py_split bare_marker_example NL) \<and>
   py_strip (py_split bare_marker_example NL ! (0 + 1)) = DQ3 \<and>
   \<not> startswith (py_strip (py_split no_docstring_example NL ! (0 + 1))) DQ3 \<and>
   \<not> startswith (py_strip (py_split no_docstring_example NL ! (0 + 1))) SQ3 \<and>
   \<lparr>name = ''f'', line = 0 + 1, docstring = [], type = ''function''\<rparr>
     \<in> set (functions_list (simple_parse_python bare_marker_example)) \<and>
   functions_list (simple_parse_python bare_marker_example) =
     functions_list (simple_parse_python no_docstring_example)"
proof -
  have h1: "0 + 1 < length (py_split bare_marker_example NL)"
    by code_simp
  have h2: "py_strip (py_split bare_marker_example NL ! (0 + 1)) = DQ3"
    by code_simp
  have h3: "\<not> startswith (py_strip (py_split no_docstring_example NL ! (0 + 1))) DQ3 \<and>
            \<not> startswith (py_strip (py_split no_docstring_example NL ! (0 + 1))) SQ3"
    by code_simp
  have e: "functions_list (simple_parse_python bare_marker_example) =
             functions_list (simple_parse_python no_docstring_example)"
    by code_simp
  have m: "re_match def_pattern (py_split bare_marker_example NL ! 0) =
             Some \<lparr>m_string = ''def f():'', m_group1 = (4, 5), m_end = 6\<rparr>"
    by code_simp
  have g: "group1 \<lparr>m_string = ''def f():'', m_group1 = (4, 5), m_end = 6\<rparr> = ''f''"
    by code_simp
  show ?thesis
    using bare_marker_docstring_is_empty [OF h1 disjI1 [OF h2] disjI2 [OF h3]] h1 h2 h3 e m g
    by simp
qed

section \<open>Properties of find_function_calls\<close>



text \<open>
  Where the word boundary does decide: \<open>foo\<close> after a word character is no
  call of \<open>foo\<close>, though the pattern without \<^verbatim>\<open>\b\<close> matches the line; white
  space before the parenthesis is allowed.
\<close>

lemma word_boundary_excludes_inner_occurrence:
  "find_function_calls ''barfoo(3)'' ''foo'' = Some [] \<and>
   re_search [One (Lit CHR ''f''), One (Lit CHR ''o''), One (Lit CHR ''o''), Star Space,
              One (Lit CHR ''('')] ''barfoo(3)''"
  by code_simp

lemma white_space_before_parenthesis:
  "find_function_calls (''x = foo  (1)'' @ [NL] @ ''foo = 1'') ''foo'' = Some [1]"
  by code_simp

text \<open>
  Claim C2 asks that a name with a pattern metacharacter is matched literally
  or rejected. The name goes into the pattern unescaped: with the name
  \<^verbatim>\<open>foo.\<close> the dot stands for any character, and the line \<^verbatim>\<open>fooX(1)\<close>,
  which does not contain the name, is reported.
\<close>

theorem find_call_sites_unescaped_dot:
  "find_function_calls ''fooX(1)'' ''foo.'' = Some [1]"
  by code_simp

section \<open>Properties of build_file_tree\<close>

lemma py_split_ne: "py_split s c \<noteq> []"
  by (induction s) (auto split: list.splits)

lemma py_split_nosep: "c \<notin> set x \<Longrightarrow> py_split x c = [x]"
  by (induction x) auto

lemma py_split_append: "py_split (a @ c # b) c = py_split a c @ py_split b c"
  by (induction a) (auto split: list.splits simp: py_split_ne)

lemma split_join:
  "xs \<noteq> [] \<Longrightarrow> py_split (join_sep xs) CHR ''/'' = concat (map (\<lambda>x. py_split x CHR ''/'') xs)"
  by (induction xs rule: join_sep.induct) (auto simp: py_split_append)

lemma split_relpath:
  assumes "\<forall>d\<in>set ds. CHR ''/'' \<notin> set d" and "CHR ''/'' \<notin> set f"
  shows "py_split (relpath ds f) CHR ''/'' = ds @ [f]"
proof -
  have "concat (map (\<lambda>x. py_split x CHR ''/'') ds) = ds"
    using assms(1) by (induction ds) (auto simp: py_split_nosep)
  then show ?thesis
    using assms(2) by (simp add: relpath_def split_join py_split_nosep)
qed

lemma last_comp_relpath: "CHR ''/'' \<notin> set f \<Longrightarrow> last_comp (relpath root f) = f"
  by (simp add: last_comp_def relpath_def split_join py_split_nosep py_split_ne)

lemma classify_file_eq:
  "classify_file root ft f =
     (if startswith f ''.'' then ft
      else (case category f of Some l \<Rightarrow> ft(relpath root f \<mapsto> l) | None \<Rightarrow> ft))"
  by (auto simp: classify_file_def category_def Let_def split: option.splits)

lemma has_file_Nil: "has_file (Dir es) [] f \<longleftrightarrow> (\<exists>e. (f, e) \<in> set es \<and> \<not> is_dir e)"
  by (auto simp: list_ex_iff)

lemma has_file_Cons: "has_file (Dir es) (d # ds) f \<longleftrightarrow> (\<exists>e. (d, e) \<in> set es \<and> has_file e ds f)"
  by (auto simp: list_ex_iff)

declare has_file.simps(1,2) [simp del]

lemma has_file_is_dir: "has_file e ds f \<Longrightarrow> is_dir e"
  by (cases e) auto

lemma names_ok_entry: "names_ok (Dir es) \<Longrightarrow> (n, e) \<in> set es \<Longrightarrow> CHR ''/'' \<notin> set n \<and> names_ok e"
  by (auto simp: list_all_iff)

lemma files_of_entries:
  "f \<in> set (map fst (filter (\<lambda>(n, e). \<not> is_dir e) es)) \<longleftrightarrow> has_file (Dir es) [] f"
  by (force simp: has_file_Nil)

lemma foldl_classify_sound:
  "foldl (classify_file root) ft fs k = Some l \<Longrightarrow>
     ft k = Some l \<or>
     (\<exists>f\<in>set fs. \<not> startswith f ''.'' \<and> k = relpath root f \<and> category f = Some l)"
proof (induction fs arbitrary: ft)
  case Nil
  then show ?case by simp
next
  case (Cons f fs)
  from Cons.prems have "foldl (classify_file root) (classify_file root ft f) fs k = Some l"
    by simp
  from Cons.IH [OF this] show ?case
    by (auto simp: classify_file_eq split: if_splits option.splits)
qed

lemma walk_descend_sound:
  "walk root n ft k = Some l \<Longrightarrow>
     ft k = Some l \<or>
     (\<exists>ds f. has_file n ds f \<and> (\<forall>d\<in>set ds. kept d) \<and> \<not> startswith f ''.'' \<and>
             k = relpath (root @ ds) f \<and> category f = Some l)"
  "descend root es ft k = Some l \<Longrightarrow>
     ft k = Some l \<or>
     (\<exists>d e ds f. (d, e) \<in> set es \<and> has_file e ds f \<and> (\<forall>d'\<in>set (d # ds). kept d') \<and>
             \<not> startswith f ''.'' \<and> k = relpath (root @ d # ds) f \<and> category f = Some l)"
proof (induction root n ft and root es ft rule: walk_descend.induct)
  case (1 root file_tree)
  then show ?case by simp
next
  case (2 root file_tree)
  then show ?case by simp
next
  case (3 root entries file_tree)
  let ?ft = "foldl (classify_file root) file_tree
               (map fst (filter (\<lambda>(n, e). \<not> is_dir e) entries))"
  from "3.prems" have "descend root entries ?ft k = Some l" by simp
  from "3.IH" [OF this] consider (a) "?ft k = Some l"
    | (b) d e ds f where "(d, e) \<in> set entries" "has_file e ds f" "\<forall>d'\<in>set (d # ds). kept d'"
        "\<not> startswith f ''.''" "k = relpath (root @ d # ds) f" "category f = Some l"
    by blast
  then show ?case
  proof cases
    case a
    from foldl_classify_sound [OF a] consider "file_tree k = Some l"
      | f where "f \<in> set (map fst (filter (\<lambda>(n, e). \<not> is_dir e) entries))"
          "\<not> startswith f ''.''" "k = relpath root f" "category f = Some l"
      by blast
    then show ?thesis
    proof cases
      case 1
      then show ?thesis by simp
    next
      case 2
      then have "has_file (Dir entries) [] f" by (simp only: files_of_entries)
      with 2 have "has_file (Dir entries) [] f \<and> (\<forall>d\<in>set []. kept d) \<and>
          \<not> startswith f ''.'' \<and> k = relpath (root @ []) f \<and> category f = Some l"
        by simp
      then show ?thesis by blast
    qed
  next
    case b
    then have "has_file (Dir entries) (d # ds) f"
      by (auto simp: has_file_Cons)
    with b show ?thesis by blast
  qed
next
  case (4 root file_tree)
  then show ?case by simp
next
  case (5 root d e entries file_tree)
  show ?case
  proof (cases "is_dir e \<and> d \<notin> set ignore_dirs \<and> \<not> startswith d ''.''")
    case True
    with "5.prems" have "descend root entries (walk (root @ [d]) e file_tree) k = Some l"
      by simp
    from "5.IH"(2) [OF True this] consider (a) "walk (root @ [d]) e file_tree k = Some l"
      | (b) d' e' ds f where "(d', e') \<in> set entries" "has_file e' ds f"
          "\<forall>x\<in>set (d' # ds). kept x" "\<not> startswith f ''.''"
          "k = relpath (root @ d' # ds) f" "category f = Some l"
      by blast
    then show ?thesis
    proof cases
      case a
      from "5.IH"(1) [OF True a] consider "file_tree k = Some l"
        | ds f where "has_file e ds f" "\<forall>x\<in>set ds. kept x" "\<not> startswith f ''.''"
            "k = relpath ((root @ [d]) @ ds) f" "category f = Some l"
        by blast
      then show ?thesis
      proof cases
        case 1
        then show ?thesis by simp
      next
        case 2
        with True have "(d, e) \<in> set ((d, e) # entries) \<and> has_file e ds f \<and>
            (\<forall>x\<in>set (d # ds). kept x) \<and> \<not> startswith f ''.'' \<and>
            k = relpath (root @ d # ds) f \<and> category f = Some l"
          by (simp add: kept_def)
        then show ?thesis by blast
      qed
    next
      case b
      then have "(d', e') \<in> set ((d, e) # entries)" by simp
      with b show ?thesis by blast
    qed
  next
    case False
    with "5.prems" have "descend root entries file_tree k = Some l"
      by auto
    from "5.IH"(3) [OF False this] show ?thesis
      by (elim disjE exE conjE) (simp, metis list.set_intros(2))
  qed
qed


lemma names_ok_Cons:
  "names_ok (Dir ((d, e) # es)) \<longleftrightarrow> CHR ''/'' \<notin> set d \<and> names_ok e \<and> names_ok (Dir es)"
  by simp

lemma has_file_names:
  "names_ok n \<Longrightarrow> has_file n ds f \<Longrightarrow> (\<forall>d\<in>set ds. CHR ''/'' \<notin> set d) \<and> CHR ''/'' \<notin> set f"
proof (induction ds arbitrary: n)
  case Nil
  then show ?case
    by (cases n) (auto simp: has_file_Nil list_all_iff)
next
  case (Cons d ds)
  then obtain es where n: "n = Dir es" by (cases n) auto
  with Cons.prems obtain e where e: "(d, e) \<in> set es" "has_file e ds f"
    by (auto simp: has_file_Cons)
  with Cons.prems n have "CHR ''/'' \<notin> set d" "names_ok e"
    using names_ok_entry by blast+
  with Cons.IH e show ?case by auto
qed

lemma classify_Q:
  "CHR ''/'' \<notin> set f \<Longrightarrow>
     classify_file root ft f k = ft k \<or> classify_file root ft f k = category (last_comp k)"
  by (auto simp: classify_file_eq last_comp_relpath split: option.splits)

lemma foldl_Q:
  "\<forall>f\<in>set fs. CHR ''/'' \<notin> set f \<Longrightarrow>
     foldl (classify_file root) ft fs k = ft k \<or>
     foldl (classify_file root) ft fs k = category (last_comp k)"
proof (induction fs arbitrary: ft)
  case Nil
  then show ?case by simp
next
  case (Cons f fs)
  then have "CHR ''/'' \<notin> set f" "\<forall>f\<in>set fs. CHR ''/'' \<notin> set f" by auto
  from classify_Q [OF this(1), of root ft k] Cons.IH [OF this(2), of "classify_file root ft f"]
  show ?case by auto
qed

lemma files_names:
  "names_ok (Dir es) \<Longrightarrow> \<forall>f\<in>set (map fst (filter (\<lambda>(n, e). \<not> is_dir e) es)). CHR ''/'' \<notin> set f"
  by (auto simp: list_all_iff)

lemma walk_descend_Q:
  "names_ok n \<Longrightarrow> walk root n ft k = ft k \<or> walk root n ft k = category (last_comp k)"
  "names_ok (Dir es) \<Longrightarrow>
     descend root es ft k = ft k \<or> descend root es ft k = category (last_comp k)"
proof (induction root n ft and root es ft rule: walk_descend.induct)
  case (1 root file_tree)
  then show ?case by simp
next
  case (2 root file_tree)
  then show ?case by simp
next
  case (3 root entries file_tree)
  let ?ft = "foldl (classify_file root) file_tree
               (map fst (filter (\<lambda>(n, e). \<not> is_dir e) entries))"
  from foldl_Q [OF files_names [OF "3.prems"], of root file_tree k] "3.IH" [OF "3.prems"]
  show ?case by auto
next
  case (4 root file_tree)
  then show ?case by simp
next
  case (5 root d e entries file_tree)
  from "5.prems" have ok: "names_ok e" "names_ok (Dir entries)"
    by (simp_all only: names_ok_Cons)
  show ?case
  proof (cases "is_dir e \<and> d \<notin> set ignore_dirs \<and> \<not> startswith d ''.''")
    case True
    from "5.IH"(1) [OF True ok(1)] "5.IH"(2) [OF True ok(2)] True
    show ?thesis by auto
  next
    case False
    from "5.IH"(3) [OF False ok(2)] False
    show ?thesis by auto
  qed
qed

lemma foldl_writes:
  assumes "f \<in> set fs" and "\<not> startswith f ''.''" and "category f = Some l"
    and "\<forall>f'\<in>set fs. CHR ''/'' \<notin> set f'"
  shows "foldl (classify_file root) ft fs (relpath root f) = Some l"
  using assms(1,4)
proof (induction fs arbitrary: ft)
  case Nil
  then show ?case by simp
next
  case (Cons g fs)
  from Cons.prems assms(1) have sf: "CHR ''/'' \<notin> set f" by auto
  from Cons.prems have sfs: "\<forall>f'\<in>set fs. CHR ''/'' \<notin> set f'" by auto
  show ?case
  proof (cases "f \<in> set fs")
    case True
    from Cons.IH [OF True sfs] show ?thesis by simp
  next
    case False
    with Cons.prems have "g = f" by auto
    then have "classify_file root ft g (relpath root f) = Some l"
      using assms(2,3) by (simp add: classify_file_eq)
    with foldl_Q [OF sfs, of root "classify_file root ft g" "relpath root f"] assms(3) sf
    show ?thesis by (auto simp: last_comp_relpath)
  qed
qed

lemma walk_descend_writes:
  "names_ok n \<Longrightarrow> has_file n ds f \<Longrightarrow> \<forall>x\<in>set ds. kept x \<Longrightarrow> \<not> startswith f ''.'' \<Longrightarrow>
     category f = Some l \<Longrightarrow> walk root n ft (relpath (root @ ds) f) = Some l"
  "names_ok (Dir es) \<Longrightarrow> (d, e) \<in> set es \<Longrightarrow> has_file e ds f \<Longrightarrow> \<forall>x\<in>set (d # ds). kept x \<Longrightarrow>
     \<not> startswith f ''.'' \<Longrightarrow> category f = Some l \<Longrightarrow>
     descend root es ft (relpath (root @ d # ds) f) = Some l"
proof (induction root n ft and root es ft arbitrary: ds and d e ds rule: walk_descend.induct)
  case (1 root file_tree)
  then show ?case by simp
next
  case (2 root file_tree)
  then show ?case by simp
next
  case (3 root entries file_tree)
  let ?fs = "map fst (filter (\<lambda>(n, e). \<not> is_dir e) entries)"
  let ?ft = "foldl (classify_file root) file_tree ?fs"
  from has_file_names [OF "3.prems"(1,2)] have sf: "CHR ''/'' \<notin> set f" by simp
  show ?case
  proof (cases ds)
    case Nil
    with "3.prems"(2) have "f \<in> set ?fs" by (simp only: files_of_entries)
    from foldl_writes [OF this "3.prems"(4,5) files_names [OF "3.prems"(1)], of root file_tree]
    have "?ft (relpath root f) = Some l" .
    with walk_descend_Q(2) [OF "3.prems"(1), of root ?ft "relpath root f"] "3.prems"(5) sf Nil
    show ?thesis by (auto simp: last_comp_relpath)
  next
    case (Cons d ds')
    with "3.prems"(2) obtain e where e: "(d, e) \<in> set entries" "has_file e ds' f"
      by (auto simp: has_file_Cons)
    from "3.IH" [OF "3.prems"(1) e] "3.prems"(3,4,5) Cons
    show ?thesis by simp
  qed
next
  case (4 root file_tree)
  then show ?case by simp
next
  case (5 root d0 e0 entries file_tree)
  from "5.prems"(1) have ok: "names_ok e0" "names_ok (Dir entries)"
    by (simp_all only: names_ok_Cons)
  from has_file_names [OF _ "5.prems"(3)] "5.prems"(1,2) have sf: "CHR ''/'' \<notin> set f"
    using names_ok_entry by blast
  let ?k = "relpath (root @ d # ds) f"
  show ?case
  proof (cases "is_dir e0 \<and> d0 \<notin> set ignore_dirs \<and> \<not> startswith d0 ''.''")
    case True
    show ?thesis
    proof (cases "(d, e) \<in> set entries")
      case in_tail: True
      from "5.IH"(2) [OF True ok(2) in_tail "5.prems"(3,4,5,6)] True
      show ?thesis by simp
    next
      case False
      with "5.prems"(2) have eq: "d0 = d" "e0 = e" by auto
      from "5.prems"(4) have "\<forall>x\<in>set ds. kept x" by simp
      from "5.IH"(1) [OF True ok(1) _ this "5.prems"(5,6)] "5.prems"(3) eq
      have "walk (root @ [d]) e file_tree ?k = Some l" by simp
      with walk_descend_Q(2) [OF ok(2), of root "walk (root @ [d]) e file_tree" ?k]
        "5.prems"(6) sf True eq
      show ?thesis by (auto simp: last_comp_relpath)
    qed
  next
    case False
    from "5.prems"(3,4) have "is_dir e" "kept d"
      by (auto dest: has_file_is_dir)
    with False have "(d, e) \<noteq> (d0, e0)" by (auto simp: kept_def)
    with "5.prems"(2) have in_tail: "(d, e) \<in> set entries" by auto
    from "5.IH"(3) [OF False ok(2) in_tail "5.prems"(3,4,5,6)] False
    show ?thesis by auto
  qed
qed

text \<open>
  The call on a path and the mapping as a function of what the path names
  agree on every path without a NUL; a path with a NUL raises \<^verbatim>\<open>ValueError\<close>.
\<close>

lemma build_file_tree_call_eq:
  "CHR 0x00 \<notin> set root_path \<Longrightarrow>
     build_file_tree_call fs root_path = Inr (build_file_tree (fs root_path))"
  by (simp add: build_file_tree_call_def scandir_def build_file_tree_def
      split: option.splits fsnode.splits)

lemma nul_in_root_path_raises:
  "CHR 0x00 \<in> set root_path \<Longrightarrow> build_file_tree_call fs root_path = Inl ValueError"
  by (simp add: build_file_tree_call_def scandir_def)

lemma scandir_OSError_no_nul:
  "scandir fs root_path = Inl error \<Longrightarrow> is_OSError error \<Longrightarrow> CHR 0x00 \<notin> set root_path"
  by (auto simp: scandir_def split: if_splits)

text \<open>
  Claim C1, as amended. For every root path whose listing fails with a
  file-system error (an \<^verbatim>\<open>OSError\<close>: the path names nothing, names a file, or
  names a directory that may not be read), the call does not fail with that
  error: it returns the empty mapping, the result it also returns when the
  path names an empty directory.
\<close>

theorem unreadable_root_gives_empty_mapping:
  assumes "scandir fs root_path = Inl error" and "is_OSError error"
  shows "build_file_tree_call fs root_path = Inr Map.empty \<and>
         build_file_tree_call fs root_path =
           build_file_tree_call (fs(root_path \<mapsto> Dir [])) root_path"
proof -
  from assms have n: "CHR 0x00 \<notin> set root_path"
    by (rule scandir_OSError_no_nul)
  from assms have a: "build_file_tree_call fs root_path = Inr Map.empty"
    by (simp add: build_file_tree_call_def)
  from n have "scandir (fs(root_path \<mapsto> Dir [])) root_path = Inr []"
    by (simp add: scandir_def)
  then have "build_file_tree_call (fs(root_path \<mapsto> Dir [])) root_path = Inr Map.empty"
    by (simp add: build_file_tree_call_def)
  with a show ?thesis by simp
qed

theorem unreadable_root_gives_empty_mapping_witness:
  "scandir missing_fs ''repo'' = Inl FileNotFoundError \<and> is_OSError FileNotFoundError \<and>
   build_file_tree_call missing_fs ''repo'' = Inr Map.empty \<and>
   scandir locked_fs ''repo'' = Inl PermissionError \<and> is_OSError PermissionError \<and>
   build_file_tree_call locked_fs ''repo'' = Inr Map.empty"
proof -
  have m: "scandir missing_fs ''repo'' = Inl FileNotFoundError"
    by (simp add: scandir_def missing_fs_def)
  have l: "scandir locked_fs ''repo'' = Inl PermissionError"
    by (simp add: scandir_def locked_fs_def)
  show ?thesis
    using unreadable_root_gives_empty_mapping [OF m] unreadable_root_gives_empty_mapping [OF l] m l
    by simp
qed

text \<open>
  Claim C1 as stated fails: for a root path that names nothing the call does
  not end in an error, its mapping has no key, and the result is the one for
  the same path naming an empty directory.
\<close>

theorem missing_root_not_surfaced_counterexample:
  "\<not> isl (build_file_tree_call missing_fs ''repo'') \<and>
   dom (projr (build_file_tree_call missing_fs ''repo'')) = {} \<and>
   build_file_tree_call missing_fs ''repo'' = build_file_tree_call empty_dir_fs ''repo''"
  by (simp add: build_file_tree_call_def scandir_def missing_fs_def empty_dir_fs_def)

text \<open>
  Claim C4. No key of the returned mapping lies inside a directory whose name
  is in the ignore set or begins with a dot: every directory component of
  every key is a name the filter keeps.
\<close>

theorem ignored_directories_are_pruned:
  assumes "names_ok t"
    and "build_file_tree (Some t) k = Some l"
    and "d \<in> set (butlast (py_split k CHR ''/''))"
  shows "d \<notin> set ignore_dirs \<and> \<not> startswith d ''.''"
proof -
  from assms(2) have "walk [] t Map.empty k = Some l"
    by (simp add: build_file_tree_def)
  from walk_descend_sound(1) [OF this] obtain ds f
    where v: "has_file t ds f" "\<forall>x\<in>set ds. kept x" "k = relpath ds f"
    by auto
  from has_file_names [OF assms(1) v(1)]
  have "py_split k CHR ''/'' = ds @ [f]"
    unfolding v(3) by (intro split_relpath) simp_all
  with assms(3) have "d \<in> set ds" by simp
  with v(2) show ?thesis by (simp add: kept_def)
qed

theorem ignored_directories_are_pruned_witness:
  "names_ok sample_tree \<and>
   build_file_tree (Some sample_tree) ''src/sub/R.go'' = Some ''go'' \<and>
   ''sub'' \<in> set (butlast (py_split ''src/sub/R.go'' CHR ''/'')) \<and>
   ''sub'' \<notin> set ignore_dirs \<and> \<not> startswith ''sub'' ''.'' \<and>
   build_file_tree (Some sample_tree) ''node_modules/a.js'' = None \<and>
   build_file_tree (Some sample_tree) ''.git/hook.py'' = None"
proof -
  have h1: "names_ok sample_tree" by code_simp
  have h2: "build_file_tree (Some sample_tree) ''src/sub/R.go'' = Some ''go''" by code_simp
  have h3: "''sub'' \<in> set (butlast (py_split ''src/sub/R.go'' CHR ''/''))" by code_simp
  have n: "build_file_tree (Some sample_tree) ''node_modules/a.js'' = None"
    "build_file_tree (Some sample_tree) ''.git/hook.py'' = None"
    by code_simp+
  show ?thesis
    using ignored_directories_are_pruned [OF h1 h2 h3] h1 h2 h3 n by simp
qed

lemma flat_example_tree:
  "build_file_tree (Some flat_example) =
     [''README.md'' \<mapsto> ''readme'', ''notes.md'' \<mapsto> ''markdown'',
      ''main.py'' \<mapsto> ''python'', ''lib.rs'' \<mapsto> ''rust'']"
proof -
  have c: "category ''README.md'' = Some ''readme''" "category ''notes.md'' = Some ''markdown''"
    "category ''main.py'' = Some ''python''" "category ''lib.rs'' = Some ''rust''"
    by code_simp+
  have h: "\<not> startswith ''README.md'' ''.''" "\<not> startswith ''notes.md'' ''.''"
    "\<not> startswith ''main.py'' ''.''" "\<not> startswith ''lib.rs'' ''.''"
    by code_simp+
  show ?thesis
    by (simp add: build_file_tree_def flat_example_def classify_file_eq c h relpath_def)
qed

text \<open>
  Claim C7. A file that is not hidden and is reached through kept directories
  gets its label by the tests in their order: the extension table first, then
  the README names (compared in lower case), then the extension \<^verbatim>\<open>.md\<close>, and
  otherwise no entry. The tree with \<^verbatim>\<open>README.md\<close>, \<^verbatim>\<open>notes.md\<close>, \<^verbatim>\<open>main.py\<close> and
  \<^verbatim>\<open>lib.rs\<close> gives the labels readme, markdown, python and rust.
\<close>

theorem classification_precedence:
  assumes "names_ok t"
    and "has_file t ds f"
    and "\<forall>d\<in>set ds. d \<notin> set ignore_dirs \<and> \<not> startswith d ''.''"
    and "\<not> startswith f ''.''"
  shows "build_file_tree (Some t) (relpath ds f) =
           (case map_of code_extensions (snd (splitext f)) of
              Some language \<Rightarrow> Some language
            | None \<Rightarrow>
                if py_lower f \<in> set [''readme.md'', ''readme.txt'', ''readme'']
                then Some ''readme''
                else if snd (splitext f) = ''.md'' then Some ''markdown''
                else None) \<and>
         build_file_tree (Some flat_example) =
           [''README.md'' \<mapsto> ''readme'', ''notes.md'' \<mapsto> ''markdown'',
            ''main.py'' \<mapsto> ''python'', ''lib.rs'' \<mapsto> ''rust'']"
proof -
  from assms(3) have k: "\<forall>d\<in>set ds. kept d" by (simp add: kept_def)
  from has_file_names [OF assms(1,2)] have sf: "CHR ''/'' \<notin> set f" by simp
  have "walk [] t Map.empty (relpath ds f) = category f"
  proof (cases "category f")
    case None
    with walk_descend_Q(1) [OF assms(1), of "[]" Map.empty "relpath ds f"] sf
    show ?thesis by (auto simp: last_comp_relpath)
  next
    case (Some l)
    from walk_descend_writes(1) [OF assms(1,2) k assms(4) Some, of "[]" Map.empty] Some
    show ?thesis by simp
  qed
  then have "build_file_tree (Some t) (relpath ds f) = category f"
    by (simp add: build_file_tree_def)
  then show ?thesis
    using flat_example_tree by (simp add: category_def Let_def)
qed

theorem classification_precedence_witness:
  "names_ok sample_tree \<and> has_file sample_tree [''src'', ''sub''] ''ReadMe'' \<and>
   ''src'' \<notin> set ignore_dirs \<and> \<not> startswith ''src'' ''.'' \<and>
   ''sub'' \<notin> set ignore_dirs \<and> \<not> startswith ''sub'' ''.'' \<and>
   \<not> startswith ''ReadMe'' ''.'' \<and>
   build_file_tree (Some sample_tree) ''src/sub/ReadMe'' = Some ''readme''"
proof -
  have h1: "names_ok sample_tree" by code_simp
  have h2: "has_file sample_tree [''src'', ''sub''] ''ReadMe''" by code_simp
  have k: "''src'' \<notin> set ignore_dirs \<and> \<not> startswith ''src'' ''.'' \<and>
           ''sub'' \<notin> set ignore_dirs \<and> \<not> startswith ''sub'' ''.''" by code_simp
  then have h3: "\<forall>d\<in>set [''src'', ''sub'']. d \<notin> set ignore_dirs \<and> \<not> startswith d ''.''"
    by simp
  have h4: "\<not> startswith ''ReadMe'' ''.''" by code_simp
  have r: "relpath [''src'', ''sub''] ''ReadMe'' = ''src/sub/ReadMe''" by code_simp
  have e: "map_of code_extensions (snd (splitext ''ReadMe'')) = None" by code_simp
  have p: "py_lower ''ReadMe'' = ''readme''" by code_simp
  show ?thesis
    using classification_precedence [OF h1 h2 h3 h4] h1 h2 k h4
    unfolding r e p by simp
qed

lemma egg_info_not_ignored:
  assumes "pre \<noteq> ''*''"
  shows "pre @ ''.egg-info'' \<notin> set ignore_dirs"
proof
  assume a: "pre @ ''.egg-info'' \<in> set ignore_dirs"
  have "\<And>x. x \<in> set ignore_dirs \<Longrightarrow> take 9 (rev x) = rev ''.egg-info'' \<Longrightarrow> x = ''*.egg-info''"
    by (auto simp: ignore_dirs_def)
  from this [OF a] have "pre @ ''.egg-info'' = ''*'' @ ''.egg-info''" by simp
  with assms show False by (simp only: append_same_eq)
qed

text \<open>
  Claim C10. The ignore set is compared by string equality: a directory whose
  name ends in \<^verbatim>\<open>.egg-info\<close> is pruned only when the name is literally
  \<^verbatim>\<open>*.egg-info\<close>; any other such directory (not hidden) is walked, and a file
  in it with a recognised extension is in the result.
\<close>

theorem egg_info_entry_is_literal:
  assumes "pre \<noteq> ''*''"
    and "\<not> startswith (pre @ ''.egg-info'') ''.''"
    and "\<not> startswith f ''.''"
    and "map_of code_extensions (snd (splitext f)) = Some language"
  shows "pre @ ''.egg-info'' \<notin> set ignore_dirs \<and>
         build_file_tree (Some (Dir [(pre @ ''.egg-info'', Dir [(f, File)])])) =
           [relpath [pre @ ''.egg-info''] f \<mapsto> language] \<and>
         build_file_tree (Some (Dir [(''*.egg-info'', Dir [(f, File)])])) = Map.empty"
proof -
  have c: "category f = Some language"
    using assms(4) by (simp add: category_def)
  have i: "''*.egg-info'' \<in> set ignore_dirs"
    by (simp add: ignore_dirs_def)
  show ?thesis
    using egg_info_not_ignored [OF assms(1)] assms(2,3) c i
    by (simp add: build_file_tree_def classify_file_eq)
qed

theorem egg_info_entry_is_literal_witness:
  "''mypkg'' \<noteq> ''*'' \<and> \<not> startswith ''mypkg.egg-info'' ''.'' \<and> \<not> startswith ''setup.py'' ''.'' \<and>
   ''mypkg.egg-info'' \<notin> set ignore_dirs \<and>
   build_file_tree (Some (Dir [(''mypkg.egg-info'', Dir [(''setup.py'', File)])])) =
     [''mypkg.egg-info/setup.py'' \<mapsto> ''python''] \<and>
   build_file_tree (Some (Dir [(''*.egg-info'', Dir [(''setup.py'', File)])])) = Map.empty"
proof -
  have h1: "''mypkg'' \<noteq> ''*''" by simp
  have h2: "\<not> startswith (''mypkg'' @ ''.egg-info'') ''.''" by code_simp
  have h3: "\<not> startswith ''setup.py'' ''.''" by code_simp
  have h4: "map_of code_extensions (snd (splitext ''setup.py'')) = Some ''python''" by code_simp
  have r: "relpath [''mypkg'' @ ''.egg-info''] ''setup.py'' = ''mypkg.egg-info/setup.py''"
    by code_simp
  show ?thesis
    using egg_info_entry_is_literal [OF h1 h2 h3 h4] h2 h3
    unfolding r by simp
qed

end
